theory Spec2Isabelle
  imports Complex_Main
begin

unbundle bit_operations_syntax

section \<open>Common vocabulary\<close>

text \<open>
  Exceptions are values. \<open>KeyboardInterrupt\<close> is the one class used by the program
  that does not derive from \<open>Exception\<close>: a clause \<open>except Exception\<close> lets it pass.
\<close>

datatype py_exc =
    ZeroDivisionError
  | TypeError
  | IndexError
  | ValueError
  | AttributeError
  | StopIteration
  | LibraryError
  | KeyboardInterrupt

fun is_Exception :: "py_exc \<Rightarrow> bool" where
  "is_Exception KeyboardInterrupt = False"
| "is_Exception _ = True"

datatype 'a result = Returns 'a | Raises py_exc

text \<open>
  A logging call is recorded with its level and its message template (the text of the
  f-string, placeholders left as written, apostrophes and pictographs dropped).
\<close>

datatype level = INFO | WARNING | ERROR

type_synonym log_record = "level \<times> string"

type_synonym point = "int \<times> int"
type_synonym polygon = "point list"

section \<open>roi\_module.py: the ROI registry\<close>

text \<open>
  \<open>PolygonROIManager\<close>. An entry of \<open>polygons\<close> is whatever was appended: the
  pending polygon, which the constructor and \<open>cancel_input\<close> set to \<open>None\<close>.
  The logo fields play no part in the registry and are left out.
\<close>

record roi_manager =
  polygons :: "polygon option list"
  roi_max_thresholds :: "int list"
  current_polygon :: polygon
  edit_mode :: bool
  drawing :: bool
  selected_polygon :: int
  drag_point_index :: int
  mouse_pos :: point
  input_mode :: bool
  input_buffer :: string
  input_prompt :: string
  pending_polygon :: "polygon option"

definition init_manager :: roi_manager where
  "init_manager =
     \<lparr>polygons = [], roi_max_thresholds = [], current_polygon = [],
      edit_mode = False, drawing = False, selected_polygon = - 1,
      drag_point_index = - 1, mouse_pos = (0, 0),
      input_mode = False, input_buffer = [], input_prompt = [],
      pending_polygon = None\<rparr>"

subsection \<open>Text helpers: \<open>str(n)\<close>, \<open>str.isdigit\<close>, \<open>int(s)\<close>\<close>

text \<open>
  A character of a string is a code point below 256. \<open>isdigit\<close> holds of the ten ASCII
  digits: these are the decimal digits \<open>int\<close> reads, and the characters below 127 on
  which \<open>str.isdigit\<close> is true.
\<close>

fun show_nat :: "nat \<Rightarrow> string" where
  "show_nat n =
     (if n < 10 then [char_of (48 + n)]
      else show_nat (n div 10) @ [char_of (48 + n mod 10)])"

definition isdigit :: "char \<Rightarrow> bool" where
  "isdigit c = (c \<in> set ''0123456789'')"

definition digit_value :: "char \<Rightarrow> int" where
  "digit_value c = of_char c - 48"

text \<open>
  Characters that \<open>int\<close> strips from both ends of its argument: tab, line feed,
  vertical tab, form feed, carriage return and space, and the two code points 133 (next
  line) and 160 (no-break space).
\<close>

definition py_space :: "char \<Rightarrow> bool" where
  "py_space c = ((of_char c :: nat) \<in> {9, 10, 11, 12, 13, 32, 133, 160})"

definition strip :: "string \<Rightarrow> string" where
  "strip s = rev (dropWhile py_space (rev (dropWhile py_space s)))"

text \<open>
  The decimal body: digits, with a single underscore allowed between two digits.
  \<open>acc\<close> is the value read so far.
\<close>

fun digits_value :: "int \<Rightarrow> string \<Rightarrow> int option" where
  "digits_value acc [] = Some acc"
| "digits_value acc (c # cs) =
     (if isdigit c then digits_value (10 * acc + digit_value c) cs
      else if c = CHR ''_'' then
        (case cs of
           [] \<Rightarrow> None
         | d # _ \<Rightarrow> if isdigit d then digits_value acc cs else None)
      else None)"

text \<open>
  The most digits \<open>int\<close> converts from a string: \<open>sys.get_int_max_str_digits()\<close>, which
  is 4300 unless a program changes it; this one does not.
\<close>

definition int_max_str_digits :: nat where
  "int_max_str_digits = 4300"

text \<open>
  \<open>int(s)\<close> on a string, base ten: surrounding whitespace, an optional sign, then the
  decimal body, which starts with a digit and has no more digits than the limit, the
  underscores not counted. Anything else raises \<open>ValueError\<close>.
\<close>

definition py_int :: "string \<Rightarrow> int result" where
  "py_int s =
     (let t = strip s;
          neg = (case t of c # _ \<Rightarrow> c = CHR ''-'' | [] \<Rightarrow> False);
          body = (case t of c # r \<Rightarrow> if c = CHR ''-'' \<or> c = CHR ''+'' then r else t | [] \<Rightarrow> t)
      in case body of
           [] \<Rightarrow> Raises ValueError
         | c # _ \<Rightarrow>
             if isdigit c then
               (case digits_value 0 body of
                  Some v \<Rightarrow>
                    if length (filter isdigit body) > int_max_str_digits then Raises ValueError
                    else Returns (if neg then - v else v)
                | None \<Rightarrow> Raises ValueError)
             else Raises ValueError)"

subsection \<open>Mouse events\<close>

datatype mouse_event =
    EVENT_LBUTTONDOWN
  | EVENT_RBUTTONDOWN
  | EVENT_MOUSEMOVE
  | EVENT_LBUTTONUP
  | EVENT_OTHER

text \<open>
  \<open>np.sqrt((x - px)**2 + (y - py)**2) < 10\<close> on integers: the square root is
  below 10 exactly when the sum of squares is below 100.
\<close>

definition near :: "int \<Rightarrow> int \<Rightarrow> point \<Rightarrow> bool" where
  "near x y p = ((x - fst p)\<^sup>2 + (y - snd p)\<^sup>2 < 100)"

fun search_points :: "int \<Rightarrow> int \<Rightarrow> polygon \<Rightarrow> nat \<Rightarrow> nat option" where
  "search_points x y [] i = None"
| "search_points x y (p # ps) i =
     (if near x y p then Some i else search_points x y ps (Suc i))"

text \<open>
  The two nested \<open>for\<close> loops of the left-button branch: the first vertex within
  reach, polygons in order. Enumerating an entry that is \<open>None\<close> raises.
\<close>

datatype search = Hit nat nat | Miss | Broken

fun search_polygons :: "int \<Rightarrow> int \<Rightarrow> polygon option list \<Rightarrow> nat \<Rightarrow> search" where
  "search_polygons x y [] k = Miss"
| "search_polygons x y (None # ps) k = Broken"
| "search_polygons x y (Some poly # ps) k =
     (case search_points x y poly 0 of
        Some i \<Rightarrow> Hit k i
      | None \<Rightarrow> search_polygons x y ps (Suc k))"

text \<open>Python indexing of a sequence of length \<open>n\<close>: negative indices count from the end.\<close>

definition py_index :: "nat \<Rightarrow> int \<Rightarrow> nat option" where
  "py_index n i =
     (if 0 \<le> i \<and> i < int n then Some (nat i)
      else if - int n \<le> i \<and> i < 0 then Some (nat (int n + i))
      else None)"

text \<open>\<open>self.polygons[a][b] = (x, y)\<close>, with the exceptions it can raise.\<close>

definition set_vertex ::
  "polygon option list \<Rightarrow> int \<Rightarrow> int \<Rightarrow> point \<Rightarrow> polygon option list result" where
  "set_vertex ps a b v =
     (case py_index (length ps) a of
        None \<Rightarrow> Raises IndexError
      | Some i \<Rightarrow>
          (case ps ! i of
             None \<Rightarrow> Raises TypeError
           | Some poly \<Rightarrow>
               (case py_index (length poly) b of
                  None \<Rightarrow> Raises IndexError
                | Some j \<Rightarrow> Returns (ps[i := Some (poly[j := v])]))))"

text \<open>
  \<open>mouse_callback\<close>. The result is the manager after the call and the exception the
  call ended with, if any; \<open>mouse_pos\<close> is set before anything can raise.
\<close>

definition mouse_callback ::
  "roi_manager \<Rightarrow> mouse_event \<Rightarrow> int \<Rightarrow> int \<Rightarrow> roi_manager \<times> py_exc option" where
  "mouse_callback s0 event x y =
     (let s = s0\<lparr>mouse_pos := (x, y)\<rparr> in
      if \<not> edit_mode s \<or> input_mode s then (s, None)
      else if event = EVENT_LBUTTONDOWN then
        (if \<not> drawing s then
           (case search_polygons x y (polygons s) 0 of
              Hit k i \<Rightarrow> (s\<lparr>selected_polygon := int k, drag_point_index := int i\<rparr>, None)
            | Broken \<Rightarrow> (s, Some TypeError)
            | Miss \<Rightarrow> (s\<lparr>current_polygon := [(x, y)], drawing := True\<rparr>, None))
         else (s\<lparr>current_polygon := current_polygon s @ [(x, y)]\<rparr>, None))
      else if event = EVENT_RBUTTONDOWN \<and> drawing s \<and> length (current_polygon s) \<ge> 3 then
        (s\<lparr>pending_polygon := Some (current_polygon s),
           current_polygon := [], drawing := False,
           input_mode := True,
           input_prompt := ''Enter Threshold for ROI #'' @ show_nat (length (polygons s) + 1)
                             @ '' (then press Enter):'',
           input_buffer := []\<rparr>, None)
      else if event = EVENT_MOUSEMOVE \<and> selected_polygon s \<noteq> - 1 then
        (case set_vertex (polygons s) (selected_polygon s) (drag_point_index s) (x, y) of
           Returns ps \<Rightarrow> (s\<lparr>polygons := ps\<rparr>, None)
         | Raises e \<Rightarrow> (s, Some e))
      else if event = EVENT_LBUTTONUP then
        (s\<lparr>selected_polygon := - 1, drag_point_index := - 1\<rparr>, None)
      else (s, None))"

subsection \<open>Keyboard input\<close>

definition cancel_input :: "roi_manager \<Rightarrow> roi_manager" where
  "cancel_input s =
     s\<lparr>input_mode := False, input_buffer := [], input_prompt := [],
       pending_polygon := None\<rparr>"

text \<open>
  The threshold computed on Enter:
  \<open>int(self.input_buffer) if self.input_buffer else 50\<close>, with 50 again when
  \<open>int\<close> raises \<open>ValueError\<close>.
\<close>

definition enter_threshold :: "string \<Rightarrow> int" where
  "enter_threshold buf =
     (if buf \<noteq> [] then (case py_int buf of Returns n \<Rightarrow> n | Raises e \<Rightarrow> 50) else 50)"

definition handle_key_input :: "roi_manager \<Rightarrow> int \<Rightarrow> roi_manager \<times> log_record list" where
  "handle_key_input s key =
     (if \<not> input_mode s then (s, [])
      else if key = 13 then
        (let threshold = enter_threshold (input_buffer s);
             s1 = s\<lparr>polygons := polygons s @ [pending_polygon s]\<rparr>;
             s2 = s1\<lparr>roi_max_thresholds := roi_max_thresholds s1 @ [threshold]\<rparr>
         in (cancel_input s2,
             [(INFO, ''ROI {len(self.polygons)} created with max threshold: {threshold}'')]))
      else if key = 8 then (s\<lparr>input_buffer := butlast (input_buffer s)\<rparr>, [])
      else if key = 27 then (cancel_input s, [(INFO, ''ROI creation cancelled.'')])
      else if 32 \<le> key \<and> key < 127 then
        (let char = char_of key in
         if isdigit char then (s\<lparr>input_buffer := input_buffer s @ [char]\<rparr>, [])
         else (s, []))
      else (s, []))"

subsection \<open>Persistence\<close>

text \<open>
  A JSON value that is not a list: \<open>null\<close>, a number or a boolean, on which \<open>len\<close>
  raises \<open>TypeError\<close>; or a string or an object, with its \<open>len\<close>.
\<close>

datatype non_list = Unsized | Sized nat

text \<open>
  What a JSON object holds under a key: nothing, a list, or a value that is not a list.
\<close>

datatype 'a entry = Missing | Listed "'a list" | Other non_list

text \<open>
  What \<open>json.load\<close> finds in a file: text that is not JSON, a JSON value that is not an
  object (\<open>config.get\<close> then raises), or an object with its entries \<open>polygons\<close> and
  \<open>max_thresholds\<close>. The elements of a list are what the program writes there: a
  polygon entry that is \<open>None\<close> is written as \<open>null\<close> and read back as \<open>None\<close>; a
  point \<open>(x, y)\<close> is written as \<open>[x, y]\<close>, and the model keeps a point as its two
  coordinates.
\<close>

datatype json_file =
    NotJson
  | NotObject
  | Object "polygon option entry" "int entry"

type_synonym filesystem = "string \<rightharpoonup> json_file"

text \<open>
  What the environment does with the write of \<open>save_config\<close>: \<open>open\<close> fails and the
  file is untouched; \<open>open\<close> has truncated the file and \<open>json.dump\<close> fails before the
  document is complete; or the document is written.
\<close>

datatype write_outcome = OpenFails | DumpFails | Written

definition save_config ::
  "roi_manager \<Rightarrow> filesystem \<Rightarrow> string \<Rightarrow> write_outcome \<Rightarrow> filesystem \<times> log_record list" where
  "save_config s fs filename w =
     (case w of
        Written \<Rightarrow>
          (fs(filename \<mapsto> Object (Listed (polygons s)) (Listed (roi_max_thresholds s))),
           [(INFO, ''ROI configuration saved to {filename}'')])
      | DumpFails \<Rightarrow>
          (fs(filename \<mapsto> NotJson), [(ERROR, ''Failed to save ROI config: {e}'')])
      | OpenFails \<Rightarrow> (fs, [(ERROR, ''Failed to save ROI config: {e}'')]))"

text \<open>
  What an attribute of the manager holds once \<open>load_config\<close> has assigned to it: a list,
  or the value found in the file when that is not a list.
\<close>

datatype 'a attr = Lst "'a list" | NonList non_list

text \<open>\<open>config.get(key, [])\<close>.\<close>

definition get_or_empty :: "'a entry \<Rightarrow> 'a attr" where
  "get_or_empty v = (case v of Missing \<Rightarrow> Lst [] | Listed xs \<Rightarrow> Lst xs | Other x \<Rightarrow> NonList x)"

text \<open>\<open>len\<close> of an attribute; \<open>None\<close> when it raises \<open>TypeError\<close>.\<close>

definition attr_len :: "'a attr \<Rightarrow> nat option" where
  "attr_len a =
     (case a of
        Lst xs \<Rightarrow> Some (length xs)
      | NonList Unsized \<Rightarrow> None
      | NonList (Sized n) \<Rightarrow> Some n)"

text \<open>
  The manager after a load. \<open>Registry s\<close>: both attributes hold lists, and \<open>s\<close> is the
  manager. \<open>Mistyped p t s\<close>: \<open>polygons\<close> holds \<open>p\<close> and \<open>roi_max_thresholds\<close> holds
  \<open>t\<close>, one of them at least not a list, and the other fields are those of \<open>s\<close>.
\<close>

datatype loaded =
    Registry roi_manager
  | Mistyped "polygon option attr" "int attr" roi_manager

definition assigned :: "polygon option attr \<Rightarrow> int attr \<Rightarrow> roi_manager \<Rightarrow> loaded" where
  "assigned p t s =
     (case p of
        Lst ps \<Rightarrow>
          (case t of
             Lst ts \<Rightarrow> Registry (s\<lparr>polygons := ps, roi_max_thresholds := ts\<rparr>)
           | NonList y \<Rightarrow> Mistyped p t s)
      | NonList x \<Rightarrow> Mistyped p t s)"

text \<open>
  \<open>load_config\<close>. Both attributes are assigned before the lengths are compared; a
  \<open>len\<close> that raises is caught by \<open>except Exception\<close> with both assignments done.
\<close>

definition load_config ::
  "roi_manager \<Rightarrow> filesystem \<Rightarrow> string \<Rightarrow> loaded \<times> log_record list" where
  "load_config s fs filename =
     (case fs filename of
        None \<Rightarrow>
          (Registry s, [(WARNING, ''No config file found: {filename}. Starting with no ROIs.'')])
      | Some NotJson \<Rightarrow>
          (Registry s, [(ERROR, ''Error loading ROI config file {filename}: {e}'')])
      | Some NotObject \<Rightarrow>
          (Registry s, [(ERROR, ''Error loading ROI config file {filename}: {e}'')])
      | Some (Object pe te) \<Rightarrow>
          (let p = get_or_empty pe; t = get_or_empty te in
           case attr_len t of
             None \<Rightarrow>
               (assigned p t s, [(ERROR, ''Error loading ROI config file {filename}: {e}'')])
           | Some n \<Rightarrow>
               (case attr_len p of
                  None \<Rightarrow>
                    (assigned p t s,
                     [(ERROR, ''Error loading ROI config file {filename}: {e}'')])
                | Some m \<Rightarrow>
                    if n \<noteq> m then
                      (assigned p (Lst (replicate m 50)) s,
                       [(WARNING, ''Mismatch in loaded ROI config. Resetting all thresholds to 50.''),
                        (INFO, ''ROI config loaded from {filename}. Found {len(self.polygons)} polygons.'')])
                    else
                      (assigned p t s,
                       [(INFO, ''ROI config loaded from {filename}. Found {len(self.polygons)} polygons.'')]))))"

section \<open>detects.py: the key handler of the standalone window\<close>

text \<open>
  \<open>frame_handler\<close>, after the frame is shown. \<open>waited\<close> is what \<open>cv2.waitKey(1)\<close>
  returned; the handler reads \<open>waited & 0xFF\<close>. The result is the manager, the file
  system, the records logged and the exception raised, if any.
\<close>

definition frame_handler ::
  "roi_manager \<Rightarrow> filesystem \<Rightarrow> string \<Rightarrow> int \<Rightarrow> write_outcome
     \<Rightarrow> (roi_manager \<times> filesystem) \<times> log_record list \<times> py_exc option" where
  "frame_handler s fs roi_config_path waited w =
     (let key = waited AND 255 in
      if input_mode s then
        (case handle_key_input s key of (s', l) \<Rightarrow> ((s', fs), l, None))
      else if key = 113 then ((s, fs), [], Some KeyboardInterrupt)
      else if key = 101 then
        ((s\<lparr>edit_mode := \<not> edit_mode s\<rparr>, fs), [(INFO, ''ROI Edit Mode: {...}'')], None)
      else if key = 115 \<and> edit_mode s then
        (case save_config s fs roi_config_path w of
           (fs', l) \<Rightarrow>
             ((s\<lparr>edit_mode := False\<rparr>, fs'),
              l @ [(INFO, ''ROI config saved to {roi_config_path}. Edit mode OFF.'')], None))
      else if key = 99 \<and> edit_mode s then
        ((s\<lparr>polygons := [], roi_max_thresholds := [], current_polygon := []\<rparr>, fs),
         [(INFO, ''All ROIs cleared.'')], None)
      else ((s, fs), [], None))"

text \<open>
  The operations that reach the registry once the program is running (\<open>load_config\<close> is
  called at startup only), and a run of them against one file system. An operation that
  raises leaves the manager as it was at the raise.
\<close>

datatype registry_op =
    Mouse mouse_event int int
  | Key int
  | Frame string int write_outcome
  | Save string write_outcome

fun apply_op :: "roi_manager \<times> filesystem \<Rightarrow> registry_op \<Rightarrow> roi_manager \<times> filesystem" where
  "apply_op (s, fs) (Mouse ev x y) = (fst (mouse_callback s ev x y), fs)"
| "apply_op (s, fs) (Key k) = (fst (handle_key_input s k), fs)"
| "apply_op (s, fs) (Frame path waited w) = fst (frame_handler s fs path waited w)"
| "apply_op (s, fs) (Save filename w) = (s, fst (save_config s fs filename w))"

definition run_ops :: "roi_manager \<times> filesystem \<Rightarrow> registry_op list \<Rightarrow> roi_manager \<times> filesystem" where
  "run_ops = foldl apply_op"

text \<open>The registry invariant: one threshold per polygon.\<close>

definition aligned :: "roi_manager \<Rightarrow> bool" where
  "aligned s = (length (roi_max_thresholds s) = length (polygons s))"

text \<open>The same of the manager after a load: both lengths exist and are equal.\<close>

definition loaded_aligned :: "loaded \<Rightarrow> bool" where
  "loaded_aligned l =
     (case l of
        Registry s \<Rightarrow> aligned s
      | Mistyped p t s \<Rightarrow> attr_len t \<noteq> None \<and> attr_len t = attr_len p)"

text \<open>The buffer holds ASCII digits only.\<close>

definition digits_only :: "string \<Rightarrow> bool" where
  "digits_only buf = list_all isdigit buf"

text \<open>
  A manager in the middle of a creation: edit mode on, a triangle closed with the right
  button, the digits 1 and 2 typed.
\<close>

definition pending_manager :: roi_manager where
  "pending_manager =
     init_manager\<lparr>edit_mode := True, input_mode := True, input_buffer := ''12'',
       input_prompt := ''Enter Threshold for ROI #1 (then press Enter):'',
       pending_polygon := Some [(0, 0), (10, 0), (10, 10)]\<rparr>"

text \<open>The same manager before any digit is typed.\<close>

definition prompted_manager :: roi_manager where
  "prompted_manager = pending_manager\<lparr>input_buffer := []\<rparr>"

text \<open>
  A configuration file with one triangle and the number 7 where the list of thresholds
  belongs.
\<close>

definition number_for_thresholds :: filesystem where
  "number_for_thresholds =
     [''roi_config.json'' \<mapsto> Object (Listed [Some [(0, 0), (4, 0), (4, 4)]]) (Other Unsized)]"

section \<open>roi\_module.py: point in polygon\<close>

text \<open>
  Modelled from the spec: \<open>cv2.pointPolygonTest\<close>, a routine of the imaging library that
  \<open>point_in_polygon\<close> calls and that is not part of the repository. The spec describes it
  as an exact polygon-containment test in which the boundary counts as inside. The model
  is that test for an integer contour and an integer point without distance measurement:
  walk the closed sequence of edges, answer 0 as soon as the point lies on an edge,
  otherwise count the edges that a ray from the point crosses and answer 1 for an odd
  count and -1 for an even one. An empty contour answers -1.
\<close>

definition edges :: "polygon \<Rightarrow> (point \<times> point) list" where
  "edges cnt = (if cnt = [] then [] else zip (last cnt # butlast cnt) cnt)"

text \<open>The edge \<open>v0\<close>--\<open>v\<close> cannot be crossed by the ray from \<open>ip\<close>.\<close>

definition passed_by :: "point \<Rightarrow> point \<Rightarrow> point \<Rightarrow> bool" where
  "passed_by ip v0 v =
     ((snd v0 \<le> snd ip \<and> snd v \<le> snd ip) \<or>
      (snd v0 > snd ip \<and> snd v > snd ip) \<or>
      (fst v0 < fst ip \<and> fst v < fst ip))"

text \<open>\<open>ip\<close> is the end vertex \<open>v\<close>, or lies on the horizontal edge \<open>v0\<close>--\<open>v\<close>.\<close>

definition on_level_edge :: "point \<Rightarrow> point \<Rightarrow> point \<Rightarrow> bool" where
  "on_level_edge ip v0 v =
     (snd ip = snd v \<and>
      (fst ip = fst v \<or>
       (snd ip = snd v0 \<and>
        ((fst v0 \<le> fst ip \<and> fst ip \<le> fst v) \<or> (fst v \<le> fst ip \<and> fst ip \<le> fst v0)))))"

definition side :: "point \<Rightarrow> point \<Rightarrow> point \<Rightarrow> int" where
  "side ip v0 v =
     (snd ip - snd v0) * (fst v - fst v0) - (fst ip - fst v0) * (snd v - snd v0)"

fun scan :: "point \<Rightarrow> (point \<times> point) list \<Rightarrow> nat \<Rightarrow> int" where
  "scan ip [] counter = (if even counter then - 1 else 1)"
| "scan ip ((v0, v) # es) counter =
     (if passed_by ip v0 v then
        (if on_level_edge ip v0 v then 0 else scan ip es counter)
      else
        (let dist = side ip v0 v in
         if dist = 0 then 0
         else scan ip es
                (if (if snd v < snd v0 then - dist else dist) > 0 then counter + 1
                 else counter)))"

definition pointPolygonTest :: "polygon \<Rightarrow> point \<Rightarrow> int" where
  "pointPolygonTest cnt ip = (if cnt = [] then - 1 else scan ip (edges cnt) 0)"

text \<open>
  \<open>point_in_polygon\<close>: the test of the point, its coordinates taken through \<open>int\<close>
  (the identity on integers), answers at least 0.
\<close>

definition point_in_polygon :: "point \<Rightarrow> polygon \<Rightarrow> bool" where
  "point_in_polygon pt polygon = (pointPolygonTest polygon (fst pt, snd pt) \<ge> 0)"

text \<open>What one edge contributes to the scan: it ends the scan with 0, or it is counted.\<close>

definition touching :: "point \<Rightarrow> point \<times> point \<Rightarrow> bool" where
  "touching ip e =
     (if passed_by ip (fst e) (snd e) then on_level_edge ip (fst e) (snd e)
      else side ip (fst e) (snd e) = 0)"

definition crossing :: "point \<Rightarrow> point \<times> point \<Rightarrow> bool" where
  "crossing ip e =
     (\<not> passed_by ip (fst e) (snd e) \<and>
      (if snd (snd e) < snd (fst e) then - side ip (fst e) (snd e)
       else side ip (fst e) (snd e)) > 0)"

section \<open>detection\_utils.py: region extraction\<close>

text \<open>
  Modelled from the spec: \<open>cv2.boundingRect\<close>, a routine of the imaging library, not part
  of the repository. The spec has it compute the polygon's axis-aligned bounding box; on
  integer points that is the least column, the least row, and the number of columns and
  of rows from the least to the greatest, both included.
\<close>

definition boundingRect :: "polygon \<Rightarrow> int \<times> int \<times> int \<times> int" where
  "boundingRect pts =
     (let x0 = Min (set (map fst pts)); x1 = Max (set (map fst pts));
          y0 = Min (set (map snd pts)); y1 = Max (set (map snd pts))
      in (x0, y0, x1 - x0 + 1, y1 - y0 + 1))"

text \<open>
  An image is its rows of pixels, all of one length. Its height is the number of rows and
  its width the length of a row; an image without rows is rejected by the height alone.
\<close>

type_synonym 'p image = "'p list list"

definition img_width :: "'p image \<Rightarrow> nat" where
  "img_width img = (case img of [] \<Rightarrow> 0 | row # _ \<Rightarrow> length row)"

text \<open>
  \<open>cv2.bitwise_and(image, image, mask=mask)\<close>: a pixel outside the mask becomes zero.
  \<open>painted x y\<close> tells whether \<open>cv2.fillPoly\<close> set the mask at column \<open>x\<close>, row \<open>y\<close>.
\<close>

definition masked :: "(int \<Rightarrow> int \<Rightarrow> bool) \<Rightarrow> ('p::zero) image \<Rightarrow> 'p image" where
  "masked painted img =
     map (\<lambda>(r, row). map (\<lambda>(c, px). if painted (int c) (int r) then px else 0) (enumerate 0 row))
         (enumerate 0 img)"

text \<open>\<open>img[y:y+h, x:x+w]\<close> for \<open>x\<close>, \<open>y\<close> not negative and \<open>w\<close>, \<open>h\<close> positive.\<close>

definition crop :: "'p image \<Rightarrow> int \<Rightarrow> int \<Rightarrow> int \<Rightarrow> int \<Rightarrow> 'p image" where
  "crop img x y w h =
     map (\<lambda>row. take (nat w) (drop (nat x) row)) (take (nat h) (drop (nat y) img))"

text \<open>
  \<open>extract_roi_region\<close>. \<open>fillPoly\<close> stands for the library's polygon rasteriser. The
  pair \<open>(None, None)\<close> is \<open>None\<close>.
\<close>

definition extract_roi_region ::
  "(polygon \<Rightarrow> int \<Rightarrow> int \<Rightarrow> bool) \<Rightarrow> ('p::zero) image \<Rightarrow> polygon
     \<Rightarrow> ('p image \<times> point) option" where
  "extract_roi_region fillPoly img polygon =
     (if length polygon < 3 then None
      else
        (case boundingRect polygon of
           (x0, y0, w0, h0) \<Rightarrow>
             (let img_h = int (length img);
                  img_w = int (img_width img);
                  x = max 0 x0; y = max 0 y0;
                  w = min w0 (img_w - x); h = min h0 (img_h - y)
              in if w \<le> 0 \<or> h \<le> 0 then None
                 else Some (crop (masked (fillPoly polygon) img) x y w h, (x, y)))))"

text \<open>A frame of four rows and four columns, and a triangle above and left of it.\<close>

definition frame4 :: "nat image" where
  "frame4 = [[1, 2, 3, 4], [5, 6, 7, 8], [9, 10, 11, 12], [13, 14, 15, 16]]"

definition outside_triangle :: polygon where
  "outside_triangle = [(- 3, - 3), (- 2, - 3), (- 2, - 2)]"

section \<open>detection\_module.py: the stream source\<close>

text \<open>
  A frame is a blank canvas of given height and width, the bytes of a decoded chunk, or a
  frame with the reconnecting animation of some instant drawn over it.
\<close>

datatype frame = Zeros nat nat | Decoded "nat list" | Overlaid frame real

text \<open>
  \<open>FFmpegStreamer\<close>: the fields that \<open>read\<close> and the reader thread share. The
  subprocess, the thread and the lock are not state of the model: each step below is what
  one critical section does.
\<close>

record streamer =
  source_url :: string
  width :: nat
  height :: nat
  running :: bool
  latest_frame :: "frame option"
  last_frame_time :: real
  is_reconnecting :: bool

definition FFmpegStreamer :: "string \<Rightarrow> nat \<Rightarrow> nat \<Rightarrow> streamer" where
  "FFmpegStreamer url w h =
     \<lparr>source_url = url, width = w, height = h, running = False,
      latest_frame = None, last_frame_time = 0, is_reconnecting = False\<rparr>"

definition create_reconnecting_overlay :: "streamer \<Rightarrow> frame option \<Rightarrow> real \<Rightarrow> frame" where
  "create_reconnecting_overlay st frame current_time =
     Overlaid (case frame of None \<Rightarrow> Zeros (height st) (width st) | Some f \<Rightarrow> f) current_time"

definition read :: "streamer \<Rightarrow> real \<Rightarrow> bool \<times> frame option" where
  "read st current_time =
     (let is_currently_reconnecting = is_reconnecting st;
          frame_to_use = latest_frame st
      in if is_currently_reconnecting then
           (False, Some (create_reconnecting_overlay st frame_to_use current_time))
         else (True, frame_to_use))"

text \<open>
  What \<open>start\<close> and the reader thread do to the shared fields: \<open>start\<close> sets
  \<open>running\<close>; a launch marks reconnecting and notes the time; a chunk of full length
  replaces the latest frame and clears the mark, a shorter one changes nothing; the
  clean-up after the subprocess ends marks reconnecting again.
\<close>

datatype reader_step = Start | Launch real | Chunk "nat list" real | Cleanup

fun reader :: "streamer \<Rightarrow> reader_step \<Rightarrow> streamer" where
  "reader st Start = st\<lparr>running := True\<rparr>"
| "reader st (Launch t) = st\<lparr>is_reconnecting := True, last_frame_time := t\<rparr>"
| "reader st (Chunk chunk t) =
     (if length chunk = width st * height st * 3 then
        st\<lparr>is_reconnecting := False, latest_frame := Some (Decoded chunk),
           last_frame_time := t\<rparr>
      else st)"
| "reader st Cleanup = st\<lparr>is_reconnecting := True\<rparr>"

section \<open>detection\_module.py: the detection loop\<close>

text \<open>
  \<open>str.lower\<close>, \<open>str.startswith\<close> and \<open>str.isnumeric\<close> on code points below 256, for
  \<open>webcam = source.isnumeric() or source.lower().startswith((...))\<close>. The capitals are
  65..90 and 192..222 without 215; numeric are the ASCII digits, the superscripts 178, 179
  and 185 and the fractions 188..190.
\<close>

definition lower_char :: "char \<Rightarrow> char" where
  "lower_char c =
     (let n = (of_char c :: nat) in
      if (65 \<le> n \<and> n \<le> 90) \<or> (192 \<le> n \<and> n \<le> 222 \<and> n \<noteq> 215) then char_of (n + 32)
      else c)"

definition lower :: "string \<Rightarrow> string" where
  "lower s = map lower_char s"

definition isnumeric_char :: "char \<Rightarrow> bool" where
  "isnumeric_char c = (isdigit c \<or> (of_char c :: nat) \<in> {178, 179, 185, 188, 189, 190})"

definition startswith :: "string \<Rightarrow> string \<Rightarrow> bool" where
  "startswith s p = (take (length p) s = p)"

definition is_webcam :: "string \<Rightarrow> bool" where
  "is_webcam source =
     ((source \<noteq> [] \<and> list_all isnumeric_char source) \<or>
      (\<exists>p \<in> set [''rtsp://'', ''rtmp://'', ''http://'', ''https://'']. startswith (lower source) p))"

text \<open>The two settings the loop reads for its control flow.\<close>

record config =
  source :: string
  skip_frames :: int

text \<open>
  One turn of \<open>while True\<close>, seen from the loop: what the collaborators did in it.
  \<^item> \<open>acquire\<close>: \<open>dataset.read()\<close> or \<open>next(iter(dataset))\<close> returned, with the flag
    \<open>ret\<close> and whether \<open>im0\<close> is a frame, or raised.
  \<^item> \<open>pre_exc\<close>: what the statements from \<open>time_sync()\<close> to the sum of the
    thresholds raised, if anything.
  \<^item> \<open>roi_counts\<close>: the counts per ROI they produced; \<open>thresholds\<close>:
    \<open>roi_manager_instance.roi_max_thresholds\<close> at the alert check; \<open>now\<close>:
    \<open>time.time()\<close> there. Time is a real number.
  \<^item> \<open>fire_exc\<close>: what the statements of the alert branch after the assignment of
    \<open>last_global_alert_time\<close> raised, if anything.
  \<^item> \<open>heartbeat_ok\<close>: the result of \<open>insert_camera_data\<close>.
  \<^item> \<open>sink_exc\<close>: what \<open>output_frame_buffer\<close> raised, if anything.
\<close>

datatype acquired = Got bool bool | AcquireRaises py_exc

record tick =
  acquire :: acquired
  pre_exc :: "py_exc option"
  roi_counts :: "int list"
  thresholds :: "int list"
  now :: real
  fire_exc :: "py_exc option"
  heartbeat_ok :: bool
  sink_exc :: "py_exc option"

text \<open>
  The locals of \<open>detect\<close> that outlive a turn, with two observations added: \<open>alerts\<close>,
  the instants at which the alert branch was entered, in order, and \<open>logged\<close>.
\<close>

record loop_state =
  last_global_alert_time :: real
  last_metadata_update_time :: real
  processed_frames :: int
  alerts :: "real list"
  logged :: "log_record list"

definition init_state :: loop_state where
  "init_state =
     \<lparr>last_global_alert_time = 0, last_metadata_update_time = 0, processed_frames = 0,
      alerts = [], logged = []\<rparr>"

definition ALERT_COOLDOWN_SECONDS :: real where
  "ALERT_COOLDOWN_SECONDS = 120"

definition METADATA_UPDATE_INTERVAL :: real where
  "METADATA_UPDATE_INTERVAL = 1"

text \<open>The alert decision and its branch.\<close>

definition alert_check :: "loop_state \<Rightarrow> tick \<Rightarrow> loop_state \<times> py_exc option" where
  "alert_check st t =
     (let current_time = now t;
          total_detections = sum_list (roi_counts t);
          total_max_threshold = sum_list (thresholds t)
      in if total_detections > 0 \<and> total_max_threshold > 0 \<and>
            total_detections \<ge> total_max_threshold \<and>
            current_time - last_global_alert_time st > ALERT_COOLDOWN_SECONDS
         then
           (st\<lparr>last_global_alert_time := current_time,
               alerts := alerts st @ [current_time],
               logged := logged st @ [(WARNING, ''SYSTEM-WIDE OVERFLOW: Total count ({total_detections}) exceeds total threshold ({total_max_threshold}). Alerting.'')]\<rparr>,
            fire_exc t)
         else (st, None))"

definition heartbeat :: "loop_state \<Rightarrow> tick \<Rightarrow> loop_state" where
  "heartbeat st t =
     (if now t - last_metadata_update_time st > METADATA_UPDATE_INTERVAL then
        st\<lparr>logged := logged st @
              (if heartbeat_ok t then []
               else [(WARNING, ''Failed to update camera metadata heartbeat for {config.cam_id}.'')]),
           last_metadata_update_time := now t\<rparr>
      else st)"

text \<open>
  The \<open>try\<close> block of the loop body, up to the point where it ends or raises: the state
  there and the exception, if any. A stride of zero makes \<open>%\<close> raise.
\<close>

definition try_block :: "int \<Rightarrow> loop_state \<Rightarrow> tick \<Rightarrow> loop_state \<times> py_exc option" where
  "try_block skip st t =
     (let st1 = st\<lparr>processed_frames := processed_frames st + 1\<rparr> in
      if skip = 0 then (st1, Some ZeroDivisionError)
      else if processed_frames st1 mod skip \<noteq> 0 then (st1, None)
      else
        (case pre_exc t of
           Some e \<Rightarrow> (st1, Some e)
         | None \<Rightarrow>
             (case alert_check st1 t of
                (st2, Some e) \<Rightarrow> (st2, Some e)
              | (st2, None) \<Rightarrow>
                  (let st3 = heartbeat st2 t;
                       st4 = st3\<lparr>logged := logged st3 @ [(INFO, ''Frame {processed_frames} ...'')]\<rparr>
                   in (st4, sink_exc t)))))"

text \<open>
  One turn of the loop. Acquiring the frame and forwarding a placeholder happen outside the
  \<open>try\<close> block; \<open>except Exception\<close> after the block catches what
  \<open>is_Exception\<close> holds of.
\<close>

datatype flow = Continue | Break | Propagate py_exc

definition loop_body :: "bool \<Rightarrow> int \<Rightarrow> loop_state \<Rightarrow> tick \<Rightarrow> loop_state \<times> flow" where
  "loop_body webcam skip st t =
     (case acquire t of
        AcquireRaises e \<Rightarrow>
          (if \<not> webcam \<and> e = StopIteration then
             (st\<lparr>logged := logged st @ [(INFO, ''Finished all files.'')]\<rparr>, Break)
           else (st, Propagate e))
      | Got ret present \<Rightarrow>
          if webcam \<and> \<not> present then (st, Continue)
          else if webcam \<and> \<not> ret then
            (case sink_exc t of None \<Rightarrow> (st, Continue) | Some e \<Rightarrow> (st, Propagate e))
          else
            (case try_block skip st t of
               (st', None) \<Rightarrow> (st', Continue)
             | (st', Some e) \<Rightarrow>
                 if is_Exception e then
                   (st'\<lparr>logged := logged st' @ [(ERROR, ''Error processing frame: {e}'')]\<rparr>, Continue)
                 else (st', Propagate e)))"

text \<open>
  The loop over the turns given. \<open>Running\<close>: the turns are used up and the loop is still
  going.
\<close>

datatype ending = Running | Finished | Raised py_exc

fun detect_loop :: "bool \<Rightarrow> int \<Rightarrow> loop_state \<Rightarrow> tick list \<Rightarrow> loop_state \<times> ending" where
  "detect_loop webcam skip st [] = (st, Running)"
| "detect_loop webcam skip st (t # ts) =
     (case loop_body webcam skip st t of
        (st', Continue) \<Rightarrow> detect_loop webcam skip st' ts
      | (st', Break) \<Rightarrow> (st', Finished)
      | (st', Propagate e) \<Rightarrow> (st', Raised e))"

text \<open>
  The outer handler: \<open>except Exception\<close> logs, stops the stream source when
  \<open>dataset\<close> is bound and the source is a stream, and raises again. When \<open>dataset\<close>
  is still \<open>None\<close> the call of \<open>stop\<close> raises \<open>AttributeError\<close> instead.
\<close>

datatype dataset_local = Unbound | BoundNone | BoundSource

datatype init_outcome = InitOk | InitRaises py_exc dataset_local

definition outer_handler :: "bool \<Rightarrow> dataset_local \<Rightarrow> loop_state \<Rightarrow> py_exc \<Rightarrow> loop_state \<times> ending" where
  "outer_handler webcam ds st e =
     (if is_Exception e then
        (st\<lparr>logged := logged st @ [(ERROR, ''Critical error in detection core: {e}'')]\<rparr>,
         if ds \<noteq> Unbound \<and> webcam then
           (case ds of BoundNone \<Rightarrow> Raised AttributeError | _ \<Rightarrow> Raised e)
         else Raised e)
      else (st, Raised e))"

definition detect :: "config \<Rightarrow> init_outcome \<Rightarrow> tick list \<Rightarrow> loop_state \<times> ending" where
  "detect cfg init ticks =
     (let webcam = is_webcam (source cfg) in
      case init of
        InitRaises e ds \<Rightarrow> outer_handler webcam ds init_state e
      | InitOk \<Rightarrow>
          (case detect_loop webcam (skip_frames cfg)
                  (init_state\<lparr>logged := [(INFO, ''Starting main detection loop...'')]\<rparr>) ticks of
             (st, Raised e) \<Rightarrow> outer_handler webcam BoundSource st e
           | (st, Running) \<Rightarrow> (st, Running)
           | (st, Finished) \<Rightarrow> (st, Finished)))"

text \<open>Invariants of the alert state.\<close>

definition spaced :: "real list \<Rightarrow> bool" where
  "spaced ts = sorted_wrt (\<lambda>a b. b - a > ALERT_COOLDOWN_SECONDS) ts"

definition cooled :: "loop_state \<Rightarrow> bool" where
  "cooled st =
     (spaced (alerts st) \<and> (\<forall>a \<in> set (alerts st). a \<le> last_global_alert_time st) \<and>
      (alerts st \<noteq> [] \<longrightarrow> last_global_alert_time st = last (alerts st)))"

text \<open>\<open>last_global_alert_time\<close> is the instant of the last alert, or 0 before the first.\<close>

definition anchored :: "loop_state \<Rightarrow> bool" where
  "anchored st =
     (last_global_alert_time st = (if alerts st = [] then 0 else last (alerts st)))"

text \<open>
  Turns used as examples: one polygon with threshold 3 and four centroids inside, at a given
  instant; the same with the window's key handler answering the key q; the same with the
  detector raising. And a configuration for a video file, every frame processed.
\<close>

definition overflow_tick :: "real \<Rightarrow> tick" where
  "overflow_tick time =
     \<lparr>acquire = Got True True, pre_exc = None, roi_counts = [4], thresholds = [3],
      now = time, fire_exc = None, heartbeat_ok = True, sink_exc = None\<rparr>"

definition quit_tick :: tick where
  "quit_tick =
     (overflow_tick 1000)\<lparr>sink_exc :=
        snd (snd (frame_handler init_manager Map.empty ''roi_config.json'' 113 Written))\<rparr>"

definition failing_tick :: tick where
  "failing_tick = (overflow_tick 1000)\<lparr>pre_exc := Some LibraryError\<rparr>"

definition file_config :: config where
  "file_config = \<lparr>source = ''crowd.mp4'', skip_frames = 1\<rparr>"

section \<open>redis\_utils.py\<close>

text \<open>
  What a call into the Redis client or into \<open>json.dumps\<close> can raise: a connection
  error, another error of the client library, or another exception. All three derive from
  \<open>Exception\<close>.
\<close>

datatype redis_fault = ConnectionError | OtherRedisError | OtherException

datatype 'a reply = Ok 'a | Fault redis_fault

datatype client = Client

text \<open>
  The answers of the environment to the calls made in one invocation: \<open>ping\<close> on the
  cached client, \<open>ping\<close> on a new client, \<open>incr\<close>, \<open>json.dumps\<close>,
  \<open>rpush\<close>, the pipeline up to \<open>execute\<close>, and \<open>set\<close>.
\<close>

record redis_env =
  cached_ping :: "bool reply"
  connect_ping :: "bool reply"
  incr_reply :: "int reply"
  dumps_reply :: "unit reply"
  rpush_reply :: "unit reply"
  execute_reply :: "unit reply"
  set_reply :: "unit reply"

text \<open>
  \<open>get_redis_client\<close>: the module-level client after the call, what was logged, and the
  value returned or the exception let through. \<open>connect\<close> is its second \<open>try\<close>.
\<close>

definition connect :: "client option \<Rightarrow> log_record list \<Rightarrow> redis_env \<Rightarrow> client option \<times> log_record list \<times> client option reply" where
  "connect g l env =
     (case connect_ping env of
        Ok _ \<Rightarrow>
          (Some Client,
           l @ [(INFO, ''Successfully connected to Redis server at {config.REDIS_HOST}:{config.REDIS_PORT}.'')],
           Ok (Some Client))
      | Fault ConnectionError \<Rightarrow>
          (g, l @ [(ERROR, ''Failed to connect to Redis at {config.REDIS_HOST}:{config.REDIS_PORT}: {e}'')],
           Ok None)
      | Fault f \<Rightarrow> (g, l, Fault f))"

definition get_redis_client ::
  "client option \<Rightarrow> redis_env \<Rightarrow> client option \<times> log_record list \<times> client option reply" where
  "get_redis_client g env =
     (case g of
        Some c \<Rightarrow>
          (case cached_ping env of
             Ok True \<Rightarrow> (g, [], Ok (Some c))
           | Ok False \<Rightarrow> connect g [] env
           | Fault ConnectionError \<Rightarrow>
               connect None [(WARNING, ''Redis connection lost. Attempting to reconnect...'')] env
           | Fault f \<Rightarrow> (g, [], Fault f))
      | None \<Rightarrow> connect g [] env)"

text \<open>Two calls in a row: the second is made when the first returned.\<close>

definition andThen :: "'a reply \<Rightarrow> 'b reply \<Rightarrow> 'b reply" where
  "andThen a b = (case a of Fault f \<Rightarrow> Fault f | Ok _ \<Rightarrow> b)"

text \<open>
  The body of each helper is its \<open>try\<close> block; \<open>guarded\<close> is the clause
  \<open>except (redis.exceptions.RedisError, Exception)\<close>, which logs and returns
  \<open>False\<close>.
\<close>

definition push_alert_body :: "client option \<Rightarrow> redis_env \<Rightarrow> client option \<times> log_record list \<times> bool reply" where
  "push_alert_body g env =
     (case get_redis_client g env of
        (g', l, Fault f) \<Rightarrow> (g', l, Fault f)
      | (g', l, Ok None) \<Rightarrow> (g', l, Ok False)
      | (g', l, Ok (Some c)) \<Rightarrow>
          (case andThen (incr_reply env) (andThen (dumps_reply env) (rpush_reply env)) of
             Fault f \<Rightarrow> (g', l, Fault f)
           | Ok _ \<Rightarrow> (g', l @ [(WARNING, ''Alert pushed: {alert}'')], Ok True)))"

definition guarded :: "string \<Rightarrow> client option \<times> log_record list \<times> bool reply \<Rightarrow> client option \<times> log_record list \<times> bool reply" where
  "guarded msg r =
     (case r of
        (g, l, Fault f) \<Rightarrow> (g, l @ [(ERROR, msg)], Ok False)
      | (g, l, Ok b) \<Rightarrow> (g, l, Ok b))"

definition push_alert :: "client option \<Rightarrow> redis_env \<Rightarrow> client option \<times> log_record list \<times> bool reply" where
  "push_alert g env = guarded ''Failed to push alert for CAM_ID={cam_id}: {e}'' (push_alert_body g env)"

definition update_crowd_count_body :: "client option \<Rightarrow> redis_env \<Rightarrow> client option \<times> log_record list \<times> bool reply" where
  "update_crowd_count_body g env =
     (case get_redis_client g env of
        (g', l, Fault f) \<Rightarrow> (g', l, Fault f)
      | (g', l, Ok None) \<Rightarrow> (g', l, Ok False)
      | (g', l, Ok (Some c)) \<Rightarrow>
          (case andThen (dumps_reply env) (execute_reply env) of
             Fault f \<Rightarrow> (g', l, Fault f)
           | Ok _ \<Rightarrow> (g', l @ [(INFO, ''Updated crowd count for CAM_{cam_id}: {count}'')], Ok True)))"

definition update_crowd_count :: "client option \<Rightarrow> redis_env \<Rightarrow> client option \<times> log_record list \<times> bool reply" where
  "update_crowd_count g env = guarded ''Failed to update crowd count for {cam_id}: {e}'' (update_crowd_count_body g env)"

definition insert_camera_data_body :: "client option \<Rightarrow> redis_env \<Rightarrow> client option \<times> log_record list \<times> bool reply" where
  "insert_camera_data_body g env =
     (case get_redis_client g env of
        (g', l, Fault f) \<Rightarrow> (g', l, Fault f)
      | (g', l, Ok None) \<Rightarrow> (g', l, Ok False)
      | (g', l, Ok (Some c)) \<Rightarrow>
          (case andThen (dumps_reply env) (set_reply env) of
             Fault f \<Rightarrow> (g', l, Fault f)
           | Ok _ \<Rightarrow> (g', l @ [(INFO, ''Inserted metadata for CAM_ID={cam_id}'')], Ok True)))"

definition insert_camera_data :: "client option \<Rightarrow> redis_env \<Rightarrow> client option \<times> log_record list \<times> bool reply" where
  "insert_camera_data g env = guarded ''Failed to insert metadata heartbeat for CAM_ID={cam_id}: {e}'' (insert_camera_data_body g env)"

text \<open>Vocabulary for the results.\<close>

definition obtained :: "client option \<Rightarrow> redis_env \<Rightarrow> bool" where
  "obtained g env = (\<exists>c. snd (snd (get_redis_client g env)) = Ok (Some c))"

definition succeeds :: "'a reply \<Rightarrow> bool" where
  "succeeds r = (case r of Ok _ \<Rightarrow> True | Fault _ \<Rightarrow> False)"

definition error_logged :: "log_record list \<Rightarrow> bool" where
  "error_logged l = (ERROR \<in> fst ` set l)"

text \<open>An environment in which the server cannot be reached.\<close>

definition redis_down :: redis_env where
  "redis_down =
     \<lparr>cached_ping = Fault ConnectionError, connect_ping = Fault ConnectionError,
      incr_reply = Fault ConnectionError, dumps_reply = Ok (),
      rpush_reply = Fault ConnectionError, execute_reply = Fault ConnectionError,
      set_reply = Fault ConnectionError\<rparr>"

section \<open>Properties of the registry\<close>

subsection \<open>Reading a threshold\<close>

lemma isdigit_not_space: "isdigit c \<Longrightarrow> \<not> py_space c"
  by (auto simp: isdigit_def py_space_def)

lemma isdigit_not_sign: "isdigit c \<Longrightarrow> c \<noteq> CHR ''-'' \<and> c \<noteq> CHR ''+''"
  by (auto simp: isdigit_def)

lemma strip_digits: "digits_only s \<Longrightarrow> strip s = s"
proof (cases s rule: rev_cases)
  case Nil
  then show ?thesis by (simp add: strip_def)
next
  case (snoc ys y)
  assume d: "digits_only s"
  show ?thesis
  proof (cases s)
    case Nil
    with snoc show ?thesis by simp
  next
    case (Cons c cs)
    with d have "\<not> py_space c" by (simp add: digits_only_def isdigit_not_space)
    with Cons have head_kept: "dropWhile py_space s = s" by simp
    from d snoc have "\<not> py_space y" by (simp add: digits_only_def isdigit_not_space)
    with snoc have tail_kept: "dropWhile py_space (rev s) = rev s" by simp
    show ?thesis by (simp add: strip_def head_kept tail_kept)
  qed
qed

lemma digits_value_digits: "digits_only s \<Longrightarrow> \<exists>v. digits_value acc s = Some v"
  by (induction s arbitrary: acc) (auto simp: digits_only_def)

lemma digits_counted: "digits_only s \<Longrightarrow> length (filter isdigit s) = length s"
  by (simp add: digits_only_def list_all_iff)

text \<open>On a string of digits \<open>int\<close> returns up to the limit and raises beyond it.\<close>

lemma py_int_digits:
  assumes "digits_only s" and "s \<noteq> []" and "length s \<le> int_max_str_digits"
  shows "\<exists>n. py_int s = Returns n"
proof -
  from assms obtain c cs where s: "s = c # cs" by (cases s) auto
  with assms have c: "isdigit c" by (simp add: digits_only_def)
  obtain v where v: "digits_value 0 s = Some v"
    using digits_value_digits[OF assms(1)] by blast
  have n: "\<not> int_max_str_digits < length (filter isdigit s)"
    using assms(3) digits_counted[OF assms(1)] by simp
  have "py_int s = Returns v"
    unfolding py_int_def strip_digits[OF assms(1)]
    using c v n isdigit_not_sign[OF c] s by (simp add: Let_def)
  then show ?thesis ..
qed

lemma py_int_too_long:
  assumes "digits_only s" and "int_max_str_digits < length s"
  shows "py_int s = Raises ValueError"
proof -
  from assms obtain c cs where s: "s = c # cs" by (cases s) auto
  with assms have c: "isdigit c" by (simp add: digits_only_def)
  obtain v where v: "digits_value 0 s = Some v"
    using digits_value_digits[OF assms(1)] by blast
  have n: "int_max_str_digits < length (filter isdigit s)"
    using assms(2) digits_counted[OF assms(1)] by simp
  show ?thesis
    unfolding py_int_def strip_digits[OF assms(1)]
    using c v n isdigit_not_sign[OF c] s by (simp add: Let_def)
qed

lemma py_int_empty: "py_int [] = Raises ValueError"
  by (simp add: py_int_def strip_def)


subsection \<open>The buffer holds digits\<close>

lemma digits_only_butlast: "digits_only s \<Longrightarrow> digits_only (butlast s)"
  by (auto simp: digits_only_def list_all_iff dest: in_set_butlastD)

lemma digits_only_key:
  "digits_only (input_buffer s) \<Longrightarrow> digits_only (input_buffer (fst (handle_key_input s k)))"
  by (auto simp: handle_key_input_def cancel_input_def Let_def digits_only_def
        digits_only_butlast[unfolded digits_only_def])

lemma digits_only_mouse:
  "digits_only (input_buffer s) \<Longrightarrow> digits_only (input_buffer (fst (mouse_callback s ev x y)))"
  by (auto simp: mouse_callback_def Let_def digits_only_def split: search.splits result.splits)

lemma assigned_registry:
  "assigned p t s = Registry s' \<Longrightarrow>
     \<exists>ps ts. p = Lst ps \<and> t = Lst ts \<and> s' = s\<lparr>polygons := ps, roi_max_thresholds := ts\<rparr>"
  by (auto simp: assigned_def split: attr.splits)

lemma buffer_load:
  "fst (load_config s fs f) = Registry s' \<Longrightarrow> input_buffer s' = input_buffer s"
  by (auto simp: load_config_def Let_def
        split: option.splits json_file.splits if_splits dest!: assigned_registry)

lemma digits_only_frame:
  "digits_only (input_buffer s) \<Longrightarrow>
     digits_only (input_buffer (fst (fst (frame_handler s fs p k w))))"
  using digits_only_key[of s "k AND 255"]
  by (auto simp: frame_handler_def Let_def split: prod.splits)

lemma digits_only_op:
  "digits_only (input_buffer (fst c)) \<Longrightarrow> digits_only (input_buffer (fst (apply_op c op)))"
  by (cases c; cases op)
     (simp_all add: digits_only_key digits_only_mouse digits_only_frame)

lemma digits_only_run:
  "digits_only (input_buffer (fst c)) \<Longrightarrow> digits_only (input_buffer (fst (run_ops c ops)))"
  unfolding run_ops_def by (induction ops arbitrary: c) (simp_all add: digits_only_op)

text \<open>Typing the digit 1 again and again.\<close>

lemma type_ones:
  "input_mode s \<Longrightarrow>
     run_ops (s, fs) (replicate n (Key 49))
       = (s\<lparr>input_buffer := input_buffer s @ replicate n (CHR ''1'')\<rparr>, fs)"
proof (induction n arbitrary: s)
  case 0
  show ?case by (simp add: run_ops_def)
next
  case (Suc n)
  have c: "char_of (49::int) = CHR ''1''" by (simp add: char_of_def)
  let ?s1 = "s\<lparr>input_buffer := input_buffer s @ [CHR ''1'']\<rparr>"
  have step: "apply_op (s, fs) (Key 49) = (?s1, fs)"
    using Suc.prems by (simp add: handle_key_input_def Let_def c isdigit_def)
  have "input_mode ?s1" using Suc.prems by simp
  from Suc.IH[OF this] step show ?case
    by (simp add: run_ops_def replicate_app_Cons_same)
qed

subsection \<open>One threshold per polygon\<close>

lemma set_vertex_length: "set_vertex ps a b v = Returns ps' \<Longrightarrow> length ps' = length ps"
  by (auto simp: set_vertex_def split: option.splits)

lemma aligned_mouse: "aligned s \<Longrightarrow> aligned (fst (mouse_callback s ev x y))"
  by (auto simp: mouse_callback_def Let_def aligned_def
        split: search.splits result.splits dest: set_vertex_length)

lemma aligned_key: "aligned s \<Longrightarrow> aligned (fst (handle_key_input s k))"
  by (auto simp: handle_key_input_def cancel_input_def Let_def aligned_def)

lemma aligned_frame: "aligned s \<Longrightarrow> aligned (fst (fst (frame_handler s fs p k w)))"
  using aligned_key[of s "k AND 255"]
  by (auto simp: frame_handler_def Let_def aligned_def split: prod.splits)

lemma aligned_op: "aligned (fst c) \<Longrightarrow> aligned (fst (apply_op c op))"
  by (cases c; cases op) (simp_all add: aligned_key aligned_mouse aligned_frame)

lemma aligned_run: "aligned (fst c) \<Longrightarrow> aligned (fst (run_ops c ops))"
  unfolding run_ops_def by (induction ops arbitrary: c) (simp_all add: aligned_op)

text \<open>
  A load that leaves lists in both attributes leaves as many thresholds as polygons; so
  does every load of a file whose two entries are lists or missing, and when their lengths
  differ every threshold is 50 and the warning is logged.
\<close>

lemma aligned_load:
  "aligned s \<Longrightarrow> fst (load_config s fs f) = Registry s' \<Longrightarrow> aligned s'"
  by (auto simp: load_config_def Let_def aligned_def attr_len_def
        split: option.splits json_file.splits if_splits attr.splits dest!: assigned_registry)

lemma load_lists:
  assumes "fs f = Some (Object pe te)"
    and "get_or_empty pe = Lst ps" and "get_or_empty te = Lst ts"
  shows "load_config s fs f =
           (if length ts \<noteq> length ps then
              (Registry (s\<lparr>polygons := ps, roi_max_thresholds := replicate (length ps) 50\<rparr>),
               [(WARNING, ''Mismatch in loaded ROI config. Resetting all thresholds to 50.''),
                (INFO, ''ROI config loaded from {filename}. Found {len(self.polygons)} polygons.'')])
            else
              (Registry (s\<lparr>polygons := ps, roi_max_thresholds := ts\<rparr>),
               [(INFO, ''ROI config loaded from {filename}. Found {len(self.polygons)} polygons.'')]))"
  using assms by (simp add: load_config_def Let_def attr_len_def assigned_def)

text \<open>
  C4. The claim has one threshold per polygon after every operation, a load included. A
  load of a file with one triangle under \<open>polygons\<close> and the number 7 under
  \<open>max_thresholds\<close> assigns both attributes, \<open>len\<close> of the number raises, the handler
  logs the error and the call returns: the manager holds one polygon and a number for its
  thresholds, nothing is reset to 50 and no warning is logged.
\<close>

theorem load_assigns_before_checking:
  "load_config init_manager number_for_thresholds ''roi_config.json''
     = (Mistyped (Lst [Some [(0, 0), (4, 0), (4, 4)]]) (NonList Unsized) init_manager,
        [(ERROR, ''Error loading ROI config file {filename}: {e}'')]) \<and>
   \<not> loaded_aligned (fst (load_config init_manager number_for_thresholds ''roi_config.json''))"
  by (simp add: load_config_def number_for_thresholds_def get_or_empty_def attr_len_def
        assigned_def loaded_aligned_def Let_def)

text \<open>
  C6. For a registry with one threshold per polygon, a save whose write goes through,
  followed by a load of the same file into any manager, gives back the same polygons in
  the same order, point by point, and the same thresholds in the same order.
\<close>

theorem save_then_load:
  assumes "aligned s"
  shows "fst (load_config s0 (fst (save_config s fs f Written)) f)
           = Registry (s0\<lparr>polygons := polygons s, roi_max_thresholds := roi_max_thresholds s\<rparr>)"
  using assms
  by (simp add: save_config_def load_config_def get_or_empty_def attr_len_def assigned_def
        aligned_def Let_def)

theorem save_then_load_witness:
  "aligned (init_manager\<lparr>polygons := [Some [(0, 0), (4, 0), (4, 4)]], roi_max_thresholds := [7]\<rparr>) \<and>
   fst (load_config init_manager
      (fst (save_config (init_manager\<lparr>polygons := [Some [(0, 0), (4, 0), (4, 4)]],
                                       roi_max_thresholds := [7]\<rparr>)
              Map.empty ''roi_config.json'' Written)) ''roi_config.json'')
     = Registry (init_manager\<lparr>polygons := [Some [(0, 0), (4, 0), (4, 4)]],
                              roi_max_thresholds := [7]\<rparr>)"
proof -
  have a: "aligned (init_manager\<lparr>polygons := [Some [(0, 0), (4, 0), (4, 4)]],
                                  roi_max_thresholds := [7]\<rparr>)"
    by (simp add: aligned_def)
  show ?thesis
    using a save_then_load[OF a, of init_manager Map.empty "''roi_config.json''"]
    by simp
qed



text \<open>
  C9, as amended. Starting from a buffer of ASCII digits (the empty buffer is one),
  whatever is done to the registry, keys included, the buffer stays a string of ASCII
  digits. When it is not empty and no longer than 4300 characters, the most digits
  \<open>int\<close> converts, \<open>int\<close> returns on it, the \<open>ValueError\<close> handler is not entered and
  the threshold appended on Enter is the number read. When it is longer, \<open>int\<close> raises
  \<open>ValueError\<close> and the handler's 50 is the threshold.
\<close>

theorem buffer_stays_digits:
  assumes "digits_only (input_buffer s)"
  shows "digits_only (input_buffer (fst (run_ops (s, fs) ops))) \<and>
         (input_buffer (fst (run_ops (s, fs) ops)) \<noteq> [] \<longrightarrow>
          length (input_buffer (fst (run_ops (s, fs) ops))) \<le> 4300 \<longrightarrow>
            (\<exists>n. py_int (input_buffer (fst (run_ops (s, fs) ops))) = Returns n \<and>
                 enter_threshold (input_buffer (fst (run_ops (s, fs) ops))) = n)) \<and>
         (4300 < length (input_buffer (fst (run_ops (s, fs) ops))) \<longrightarrow>
            py_int (input_buffer (fst (run_ops (s, fs) ops))) = Raises ValueError \<and>
            enter_threshold (input_buffer (fst (run_ops (s, fs) ops))) = 50)"
proof -
  let ?b = "input_buffer (fst (run_ops (s, fs) ops))"
  have d: "digits_only ?b"
    using assms digits_only_run[of "(s, fs)" ops] by simp
  have short: "?b \<noteq> [] \<longrightarrow> length ?b \<le> 4300 \<longrightarrow>
                 (\<exists>n. py_int ?b = Returns n \<and> enter_threshold ?b = n)"
  proof (intro impI)
    assume ne: "?b \<noteq> []" and le: "length ?b \<le> 4300"
    then obtain n where "py_int ?b = Returns n"
      using py_int_digits[OF d] by (auto simp: int_max_str_digits_def)
    with ne show "\<exists>n. py_int ?b = Returns n \<and> enter_threshold ?b = n"
      by (simp add: enter_threshold_def)
  qed
  have long: "4300 < length ?b \<longrightarrow> py_int ?b = Raises ValueError \<and> enter_threshold ?b = 50"
  proof
    assume gt: "4300 < length ?b"
    then have "py_int ?b = Raises ValueError"
      using py_int_too_long[OF d] by (simp add: int_max_str_digits_def)
    then show "py_int ?b = Raises ValueError \<and> enter_threshold ?b = 50"
      by (simp add: enter_threshold_def)
  qed
  from d short long show ?thesis by simp
qed

theorem buffer_stays_digits_witness:
  "digits_only (input_buffer pending_manager) \<and>
   input_buffer (fst (run_ops (pending_manager, Map.empty) [Key 97, Key 51, Key 8, Key 52]))
     = ''124'' \<and>
   py_int ''124'' = Returns 124 \<and>
   enter_threshold ''124'' = 124 \<and>
   digits_only (input_buffer prompted_manager) \<and>
   length (input_buffer (fst (run_ops (prompted_manager, Map.empty) (replicate 4301 (Key 49)))))
     = 4301 \<and>
   enter_threshold
     (input_buffer (fst (run_ops (prompted_manager, Map.empty) (replicate 4301 (Key 49))))) = 50"
proof -
  have d: "digits_only (input_buffer pending_manager)"
    by (simp add: pending_manager_def digits_only_def isdigit_def)
  have c: "char_of (97::int) = CHR ''a''" "char_of (51::int) = CHR ''3''"
          "char_of (52::int) = CHR ''4''"
    by (simp_all add: char_of_def)
  have r: "input_buffer (fst (run_ops (pending_manager, Map.empty) [Key 97, Key 51, Key 8, Key 52]))
             = ''124''"
    by (simp add: run_ops_def handle_key_input_def pending_manager_def init_manager_def
          Let_def c isdigit_def)
  have i: "py_int ''124'' = Returns 124"
    by (simp add: py_int_def strip_def py_space_def isdigit_def digit_value_def
          int_max_str_digits_def)
  have d': "digits_only (input_buffer prompted_manager)"
    by (simp add: prompted_manager_def digits_only_def)
  have m: "input_mode prompted_manager"
    by (simp add: prompted_manager_def pending_manager_def)
  have e: "input_buffer prompted_manager = []"
    by (simp add: prompted_manager_def)
  have l: "length (input_buffer (fst (run_ops (prompted_manager, Map.empty)
              (replicate 4301 (Key 49))))) = 4301"
    by (simp add: type_ones[OF m] e)
  show ?thesis
    using d r i l d'
      buffer_stays_digits[OF d, of Map.empty "[Key 97, Key 51, Key 8, Key 52]"]
      buffer_stays_digits[OF d', of Map.empty "replicate 4301 (Key 49)"]
    by simp
qed

text \<open>
  C9 as stated fails: 4301 presses of the key 1 from an empty buffer leave a buffer of
  4301 digits, on which \<open>int\<close> raises \<open>ValueError\<close>; Enter then appends the handler's
  50.
\<close>

theorem long_buffer_takes_fallback:
  "input_buffer (fst (run_ops (prompted_manager, Map.empty) (replicate 4301 (Key 49))))
     = replicate 4301 (CHR ''1'') \<and>
   py_int (replicate 4301 (CHR ''1'')) = Raises ValueError \<and>
   roi_max_thresholds
     (fst (run_ops (prompted_manager, Map.empty) (replicate 4301 (Key 49) @ [Key 13]))) = [50]"
proof -
  have m: "input_mode prompted_manager"
    by (simp add: prompted_manager_def pending_manager_def)
  have s0: "input_buffer prompted_manager = []"
    by (simp add: prompted_manager_def)
  have b: "input_buffer (fst (run_ops (prompted_manager, Map.empty) (replicate 4301 (Key 49))))
             = replicate 4301 (CHR ''1'')"
    by (simp add: type_ones[OF m] s0)
  have d: "digits_only (replicate 4301 (CHR ''1''))"
    by (simp add: digits_only_def list_all_iff isdigit_def)
  have p: "py_int (replicate 4301 (CHR ''1'')) = Raises ValueError"
    by (rule py_int_too_long[OF d]) (simp add: int_max_str_digits_def)
  have e: "enter_threshold (replicate 4301 (CHR ''1'')) = 50"
    by (simp add: enter_threshold_def p)
  have t: "roi_max_thresholds
     (fst (run_ops (prompted_manager, Map.empty) (replicate 4301 (Key 49) @ [Key 13]))) = [50]"
    unfolding run_ops_def foldl_append
    using type_ones[OF m, of Map.empty 4301, unfolded run_ops_def] e
    by (simp add: handle_key_input_def cancel_input_def Let_def prompted_manager_def
          pending_manager_def init_manager_def)
  from b p t show ?thesis by simp
qed

section \<open>Point in polygon\<close>

lemma scan_step:
  "scan ip (e # es) c =
     (if touching ip e then 0 else scan ip es (if crossing ip e then c + 1 else c))"
  by (cases e) (simp add: touching_def crossing_def Let_def)

text \<open>The scan in closed form: order of the edges plays no part.\<close>

lemma scan_closed_form:
  "scan ip es c =
     (if \<exists>e \<in> set es. touching ip e then 0
      else if even (c + length (filter (crossing ip) es)) then - 1 else 1)"
proof (induction es arbitrary: c)
  case Nil
  show ?case by simp
next
  case (Cons e es)
  show ?case
    unfolding scan_step by (auto simp: Cons.IH)
qed

lemma edges_rotate1: "edges (rotate1 xs) = rotate1 (edges xs)"
proof (cases xs)
  case Nil
  then show ?thesis by (simp add: edges_def)
next
  case (Cons a ys)
  show ?thesis
  proof (cases ys rule: rev_cases)
    case Nil
    with Cons show ?thesis by (simp add: edges_def)
  next
    case (snoc zs z)
    have "zip ((a # zs) @ [z]) ((zs @ [z]) @ [a]) = zip (a # zs) (zs @ [z]) @ zip [z] [a]"
      by (rule zip_append) simp
    with Cons snoc show ?thesis by (simp add: edges_def butlast_append)
  qed
qed

lemma edges_rotate: "edges (rotate n xs) = rotate n (edges xs)"
  by (induction n) (simp_all add: edges_rotate1)

lemma count_rotate1: "length (filter P (rotate1 xs)) = length (filter P xs)"
  by (cases xs) simp_all

lemma count_rotate: "length (filter P (rotate n xs)) = length (filter P xs)"
  by (induction n) (simp_all add: count_rotate1)

lemma scan_rotate: "scan ip (edges (rotate n xs)) c = scan ip (edges xs) c"
  by (simp add: scan_closed_form edges_rotate count_rotate)

lemmas polygon_test_defs =
  point_in_polygon_def pointPolygonTest_def edges_def passed_by_def on_level_edge_def side_def

text \<open>The test on a square: interior, edges and corners are inside, the rest is not.\<close>

lemma point_in_square:
  "point_in_polygon (5, 5) [(0, 0), (10, 0), (10, 10), (0, 10)]"
  "point_in_polygon (10, 5) [(0, 0), (10, 0), (10, 10), (0, 10)]"
  "point_in_polygon (5, 10) [(0, 0), (10, 0), (10, 10), (0, 10)]"
  "point_in_polygon (0, 0) [(0, 0), (10, 0), (10, 10), (0, 10)]"
  "\<not> point_in_polygon (15, 5) [(0, 0), (10, 0), (10, 10), (0, 10)]"
  "\<not> point_in_polygon (- 1, 5) [(0, 0), (10, 0), (10, 10), (0, 10)]"
  "\<not> point_in_polygon (5, 11) [(0, 0), (10, 0), (10, 10), (0, 10)]"
  by (simp_all add: polygon_test_defs)

text \<open>
  C8. For a polygon of at least three points, any rotation of its vertex list and any
  query point, \<open>point_in_polygon\<close> gives the same answer on the rotated list as on the
  original.
\<close>

theorem point_in_polygon_rotation:
  assumes "length P \<ge> 3"
  shows "point_in_polygon pt (rotate n P) = point_in_polygon pt P"
  by (simp add: point_in_polygon_def pointPolygonTest_def scan_rotate)

theorem point_in_polygon_rotation_witness:
  "length [(0, 0), (10, 0), (10, 10), (0, 10 :: int)] \<ge> 3 \<and>
   rotate 1 [(0, 0), (10, 0), (10, 10), (0, 10 :: int)] = [(10, 0), (10, 10), (0, 10), (0, 0)] \<and>
   point_in_polygon (5, 5) (rotate 1 [(0, 0), (10, 0), (10, 10), (0, 10)])
     = point_in_polygon (5, 5) [(0, 0), (10, 0), (10, 10), (0, 10)] \<and>
   point_in_polygon (5, 5) [(10, 0), (10, 10), (0, 10), (0, 0)]"
  using point_in_polygon_rotation[where P = "[(0, 0), (10, 0), (10, 10), (0, 10)]"
          and n = 1 and pt = "(5, 5)"]
  by (simp add: polygon_test_defs)

section \<open>Region extraction\<close>

lemma extract_few_points: "length polygon < 3 \<Longrightarrow> extract_roi_region fillPoly img polygon = None"
  by (simp add: extract_roi_region_def)

text \<open>A polygon wholly right of the frame, or wholly below it, is rejected.\<close>

lemma extract_right_of_frame:
  assumes "\<forall>p \<in> set polygon. int (img_width img) \<le> fst p"
  shows "extract_roi_region fillPoly img polygon = None"
proof (cases "length polygon < 3")
  case True
  then show ?thesis by (rule extract_few_points)
next
  case False
  then have ne: "map fst polygon \<noteq> []" by auto
  have "int (img_width img) \<le> Min (set (map fst polygon))"
    using assms ne by (simp add: Min_ge_iff)
  then show ?thesis
    by (auto simp: extract_roi_region_def boundingRect_def Let_def max_def min_def)
qed

text \<open>
  C3. The claim has a polygon that lies wholly outside the frame give \<open>None\<close>. The
  triangle \<open>(-3,-3), (-2,-3), (-2,-2)\<close> lies above and left of a frame of four rows and
  four columns, and the function returns a crop of two rows and two columns at offset
  \<open>(0, 0)\<close>, all zero when the rasteriser paints nothing inside the frame: the corner
  of the box is moved to 0 while its width and height stay those of the unclamped box.
\<close>

theorem extract_outside_top_left:
  "extract_roi_region fillPoly frame4 outside_triangle \<noteq> None \<and>
   map_option snd (extract_roi_region fillPoly frame4 outside_triangle) = Some (0, 0) \<and>
   extract_roi_region (\<lambda>polygon x y. False) frame4 outside_triangle
     = Some ([[0, 0], [0, 0]], (0, 0))"
  by (simp add: extract_roi_region_def boundingRect_def frame4_def outside_triangle_def
        img_width_def crop_def masked_def enumerate_eq_zip)

section \<open>The stream source\<close>

text \<open>Once reconnecting is marked or a frame is held, \<open>read\<close> hands out a frame.\<close>

lemma read_some: "is_reconnecting st \<or> latest_frame st \<noteq> None \<Longrightarrow> snd (read st t) \<noteq> None"
  by (auto simp: read_def Let_def)

lemma reader_keeps_frame:
  "is_reconnecting st \<or> latest_frame st \<noteq> None \<Longrightarrow>
     is_reconnecting (foldl reader st steps) \<or> latest_frame (foldl reader st steps) \<noteq> None"
proof (induction steps arbitrary: st)
  case Nil
  then show ?case by simp
next
  case (Cons a steps)
  have "is_reconnecting (reader st a) \<or> latest_frame (reader st a) \<noteq> None"
    using Cons.prems by (cases a) auto
  then show ?case using Cons.IH by simp
qed

text \<open>
  C2. The claim has \<open>read\<close> return a frame in every reachable state, also before the
  first frame is decoded. A streamer as constructed, and still so after \<open>start\<close> until
  the reader thread has marked it reconnecting, is not reconnecting and holds no frame:
  \<open>read\<close> answers live with no frame.
\<close>

theorem read_before_first_mark:
  "read (FFmpegStreamer url w h) t = (True, None) \<and>
   read (reader (FFmpegStreamer url w h) Start) t = (True, None)"
  by (simp add: read_def FFmpegStreamer_def)

section \<open>The detection loop\<close>

subsection \<open>Where the alert state changes\<close>

lemma alert_check_fires:
  "alerts (fst (alert_check st t)) \<noteq> alerts st \<Longrightarrow>
     alerts (fst (alert_check st t)) = alerts st @ [now t] \<and>
     last_global_alert_time (fst (alert_check st t)) = now t \<and>
     0 < sum_list (roi_counts t) \<and> 0 < sum_list (thresholds t) \<and>
     sum_list (thresholds t) \<le> sum_list (roi_counts t) \<and>
     120 < now t - last_global_alert_time st"
  by (auto simp: alert_check_def Let_def ALERT_COOLDOWN_SECONDS_def split: if_splits)

lemma alert_check_quiet:
  "alerts (fst (alert_check st t)) = alerts st \<Longrightarrow>
     last_global_alert_time (fst (alert_check st t)) = last_global_alert_time st"
  by (auto simp: alert_check_def Let_def split: if_splits)

lemma alert_check_frames: "processed_frames (fst (alert_check st t)) = processed_frames st"
  by (auto simp: alert_check_def Let_def)

lemma try_block_alerts:
  "alerts (fst (try_block skip st t)) = alerts st \<and> last_global_alert_time (fst (try_block skip st t)) = last_global_alert_time st
   \<or> alerts (fst (try_block skip st t)) = alerts (fst (alert_check (st\<lparr>processed_frames := processed_frames st + 1\<rparr>) t))
     \<and> last_global_alert_time (fst (try_block skip st t)) = last_global_alert_time (fst (alert_check (st\<lparr>processed_frames := processed_frames st + 1\<rparr>) t))"
  by (auto simp: try_block_def Let_def heartbeat_def split: option.splits prod.splits)

lemma loop_body_alerts:
  "alerts (fst (loop_body webcam skip st t)) = alerts st \<and> last_global_alert_time (fst (loop_body webcam skip st t)) = last_global_alert_time st
   \<or> alerts (fst (loop_body webcam skip st t)) = alerts (fst (alert_check (st\<lparr>processed_frames := processed_frames st + 1\<rparr>) t))
     \<and> last_global_alert_time (fst (loop_body webcam skip st t)) = last_global_alert_time (fst (alert_check (st\<lparr>processed_frames := processed_frames st + 1\<rparr>) t))"
  using try_block_alerts[of skip st t]
  by (auto simp: loop_body_def split: acquired.splits option.splits prod.splits)

lemma loop_body_fires:
  assumes "alerts (fst (loop_body webcam skip st t)) \<noteq> alerts st"
  shows "alerts (fst (loop_body webcam skip st t)) = alerts st @ [now t] \<and>
     last_global_alert_time (fst (loop_body webcam skip st t)) = now t \<and>
     0 < sum_list (roi_counts t) \<and> 0 < sum_list (thresholds t) \<and>
     sum_list (thresholds t) \<le> sum_list (roi_counts t) \<and>
     120 < now t - last_global_alert_time st"
proof -
  let ?s1 = "st\<lparr>processed_frames := processed_frames st + 1\<rparr>"
  from loop_body_alerts[of webcam skip st t] assms
  have eq: "alerts (fst (loop_body webcam skip st t)) = alerts (fst (alert_check ?s1 t))"
    and lt: "last_global_alert_time (fst (loop_body webcam skip st t)) = last_global_alert_time (fst (alert_check ?s1 t))"
    by auto
  from eq assms have "alerts (fst (alert_check ?s1 t)) \<noteq> alerts ?s1" by simp
  from alert_check_fires[OF this] eq lt show ?thesis by simp
qed

lemma loop_body_quiet:
  assumes "alerts (fst (loop_body webcam skip st t)) = alerts st"
  shows "last_global_alert_time (fst (loop_body webcam skip st t)) = last_global_alert_time st"
proof -
  let ?s1 = "st\<lparr>processed_frames := processed_frames st + 1\<rparr>"
  from loop_body_alerts[of webcam skip st t]
  show ?thesis
  proof
    assume "alerts (fst (loop_body webcam skip st t)) = alerts st \<and> last_global_alert_time (fst (loop_body webcam skip st t)) = last_global_alert_time st"
    then show ?thesis by simp
  next
    assume a: "alerts (fst (loop_body webcam skip st t)) = alerts (fst (alert_check ?s1 t))
     \<and> last_global_alert_time (fst (loop_body webcam skip st t)) = last_global_alert_time (fst (alert_check ?s1 t))"
    with assms have "alerts (fst (alert_check ?s1 t)) = alerts ?s1" by simp
    from alert_check_quiet[OF this] a show ?thesis by simp
  qed
qed

lemma spaced_snoc:
  "spaced (xs @ [x]) \<longleftrightarrow> spaced xs \<and> (\<forall>a \<in> set xs. x - a > ALERT_COOLDOWN_SECONDS)"
  by (auto simp: spaced_def sorted_wrt_append)

lemma cooled_body: 
  assumes "cooled st"
  shows "cooled (fst (loop_body webcam skip st t))"
proof (cases "alerts (fst (loop_body webcam skip st t)) = alerts st")
  case True
  with loop_body_quiet[OF True] assms show ?thesis by (simp add: cooled_def)
next
  case False
  from loop_body_fires[OF False]
  have a: "alerts (fst (loop_body webcam skip st t)) = alerts st @ [now t]"
    and l: "last_global_alert_time (fst (loop_body webcam skip st t)) = now t"
    and g: "120 < now t - last_global_alert_time st" by auto
  have "\<forall>a \<in> set (alerts st). now t - a > ALERT_COOLDOWN_SECONDS"
    using assms g by (fastforce simp: cooled_def ALERT_COOLDOWN_SECONDS_def)
  moreover have "\<forall>a \<in> set (alerts st). a \<le> now t"
    using assms g by (fastforce simp: cooled_def)
  ultimately show ?thesis using assms a l by (simp add: cooled_def spaced_snoc)
qed

lemma cooled_loop: "cooled st \<Longrightarrow> cooled (fst (detect_loop webcam skip st ts))"
proof (induction ts arbitrary: st)
  case Nil
  then show ?case by simp
next
  case (Cons t ts)
  have c: "cooled (fst (loop_body webcam skip st t))" using Cons.prems by (rule cooled_body)
  obtain st' fl where b: "loop_body webcam skip st t = (st', fl)" by (cases "loop_body webcam skip st t")
  with c have c': "cooled st'" by simp
  show ?case using b c' Cons.IH[OF c'] by (cases fl) simp_all
qed

lemma outer_handler_timeline: "alerts (fst (outer_handler w d st e)) = alerts st \<and> last_global_alert_time (fst (outer_handler w d st e)) = last_global_alert_time st"
  by (simp add: outer_handler_def)

lemma cooled_cong: "alerts a = alerts b \<Longrightarrow> last_global_alert_time a = last_global_alert_time b \<Longrightarrow> cooled a = cooled b"
  by (simp add: cooled_def)

lemma cooled_detect: "cooled (fst (detect cfg init ticks))"
proof (cases init)
  case InitOk
  let ?st0 = "init_state\<lparr>logged := [(INFO, ''Starting main detection loop...'')]\<rparr>"
  have "cooled ?st0" by (simp add: cooled_def init_state_def spaced_def)
  then have c: "cooled (fst (detect_loop (is_webcam (source cfg)) (skip_frames cfg) ?st0 ticks))"
    by (rule cooled_loop)
  obtain st en where r: "detect_loop (is_webcam (source cfg)) (skip_frames cfg) ?st0 ticks = (st, en)"
    by (cases "detect_loop (is_webcam (source cfg)) (skip_frames cfg) ?st0 ticks")
  with c have "cooled st" by simp
  then show ?thesis using InitOk r
    by (cases en) (simp_all add: detect_def Let_def cooled_cong[OF outer_handler_timeline[THEN conjunct1] outer_handler_timeline[THEN conjunct2]])
next
  case (InitRaises e ds)
  have "cooled init_state" by (simp add: cooled_def init_state_def spaced_def)
  then show ?thesis using InitRaises
    by (simp add: detect_def Let_def cooled_cong[OF outer_handler_timeline[THEN conjunct1] outer_handler_timeline[THEN conjunct2]])
qed

lemma anchored_body: "anchored st \<Longrightarrow> anchored (fst (loop_body webcam skip st t))"
proof (cases "alerts (fst (loop_body webcam skip st t)) = alerts st")
  case True
  assume "anchored st"
  with loop_body_quiet[OF True] True show ?thesis by (simp add: anchored_def)
next
  case False
  from loop_body_fires[OF False] show ?thesis by (simp add: anchored_def)
qed

lemma anchored_loop: "anchored st \<Longrightarrow> anchored (fst (detect_loop webcam skip st ts))"
proof (induction ts arbitrary: st)
  case Nil
  then show ?case by simp
next
  case (Cons t ts)
  have c: "anchored (fst (loop_body webcam skip st t))" using Cons.prems by (rule anchored_body)
  obtain st' fl where b: "loop_body webcam skip st t = (st', fl)" by (cases "loop_body webcam skip st t")
  with c have c': "anchored st'" by simp
  show ?case using b c' Cons.IH[OF c'] by (cases fl) simp_all
qed

lemma anchored_cong: "alerts a = alerts b \<Longrightarrow> last_global_alert_time a = last_global_alert_time b \<Longrightarrow> anchored a = anchored b"
  by (simp add: anchored_def)

lemma anchored_detect: "anchored (fst (detect cfg init ticks))"
proof (cases init)
  case InitOk
  let ?st0 = "init_state\<lparr>logged := [(INFO, ''Starting main detection loop...'')]\<rparr>"
  have "anchored ?st0" by (simp add: anchored_def init_state_def)
  then have c: "anchored (fst (detect_loop (is_webcam (source cfg)) (skip_frames cfg) ?st0 ticks))"
    by (rule anchored_loop)
  obtain st en where r: "detect_loop (is_webcam (source cfg)) (skip_frames cfg) ?st0 ticks = (st, en)"
    by (cases "detect_loop (is_webcam (source cfg)) (skip_frames cfg) ?st0 ticks")
  with c have "anchored st" by simp
  then show ?thesis using InitOk r
    by (cases en) (simp_all add: detect_def Let_def anchored_cong[OF outer_handler_timeline[THEN conjunct1] outer_handler_timeline[THEN conjunct2]])
next
  case (InitRaises e ds)
  have "anchored init_state" by (simp add: anchored_def init_state_def)
  then show ?thesis using InitRaises
    by (simp add: detect_def Let_def anchored_cong[OF outer_handler_timeline[THEN conjunct1] outer_handler_timeline[THEN conjunct2]])
qed

lemmas loop_defs = detect_def loop_body_def try_block_def alert_check_def heartbeat_def
  overflow_tick_def init_state_def ALERT_COOLDOWN_SECONDS_def METADATA_UPDATE_INTERVAL_def
  outer_handler_def Let_def

lemma webcam_file: "\<not> is_webcam (source file_config)"
  by (simp add: is_webcam_def file_config_def isnumeric_char_def isdigit_def startswith_def
        lower_def lower_char_def char_of_def)

text \<open>
  C1. In every run of the detection loop an alert fires on a frame only when the total of
  the counts is positive, the sum of the ROI thresholds is positive, the total is at least
  that sum, and more than 120 seconds separate the frame's instant from
  \<open>last_global_alert_time\<close>, which in a run is the instant of the last alert fired (0
  before the first). So any two alerts of a run, however many frames cross the threshold
  between them, lie more than 120 seconds apart.
\<close>

theorem alert_cooldown:
  "(alerts (fst (loop_body webcam skip st t)) \<noteq> alerts st \<longrightarrow>
      alerts (fst (loop_body webcam skip st t)) = alerts st @ [now t] \<and>
      0 < sum_list (roi_counts t) \<and> 0 < sum_list (thresholds t) \<and>
      sum_list (thresholds t) \<le> sum_list (roi_counts t) \<and>
      120 < now t - last_global_alert_time st) \<and>
   sorted_wrt (\<lambda>a b. 120 < b - a) (alerts (fst (detect cfg init ticks))) \<and>
   last_global_alert_time (fst (detect cfg init ticks)) =
     (if alerts (fst (detect cfg init ticks)) = [] then 0
      else last (alerts (fst (detect cfg init ticks))))"
proof (intro conjI impI)
  assume f: "alerts (fst (loop_body webcam skip st t)) \<noteq> alerts st"
  from loop_body_fires[OF f]
  show "alerts (fst (loop_body webcam skip st t)) = alerts st @ [now t]"
    and "0 < sum_list (roi_counts t)" and "0 < sum_list (thresholds t)"
    and "sum_list (thresholds t) \<le> sum_list (roi_counts t)"
    and "120 < now t - last_global_alert_time st"
    by simp_all
next
  show "sorted_wrt (\<lambda>a b. 120 < b - a) (alerts (fst (detect cfg init ticks)))"
    using cooled_detect[of cfg init ticks]
    by (simp add: cooled_def spaced_def ALERT_COOLDOWN_SECONDS_def)
next
  show "last_global_alert_time (fst (detect cfg init ticks)) =
     (if alerts (fst (detect cfg init ticks)) = [] then 0
      else last (alerts (fst (detect cfg init ticks))))"
    using anchored_detect[of cfg init ticks] by (simp add: anchored_def)
qed

theorem alert_cooldown_witness:
  "alerts (fst (loop_body False 1 init_state (overflow_tick 1000))) \<noteq> alerts init_state \<and>
   alerts (fst (loop_body False 1 init_state (overflow_tick 1000))) = [1000] \<and>
   alerts (fst (detect file_config InitOk
                  [overflow_tick 1000, overflow_tick 1060, overflow_tick 1120, overflow_tick 1121]))
     = [1000, 1121]"
  using alert_cooldown[of False 1 init_state "overflow_tick 1000" file_config InitOk
          "[overflow_tick 1000, overflow_tick 1060, overflow_tick 1120, overflow_tick 1121]"]
        webcam_file
  by (simp add: loop_defs file_config_def)

text \<open>
  C5, as amended. An exception of class \<open>Exception\<close> raised inside the \<open>try\<close> block
  of a turn is caught and logged, and the loop goes on with the next turn from the state
  reached at the raise. A failure before the loop starts comes out of \<open>detect\<close> as a
  raised exception: the one that occurred, or \<open>AttributeError\<close> when the handler calls
  \<open>stop\<close> on a \<open>dataset\<close> that is still \<open>None\<close>.
\<close>

theorem frame_exception_caught:
  assumes "acquire t = Got True True"
    and "try_block skip st t = (st', Some e)"
    and "is_Exception e"
  shows "detect_loop webcam skip st (t # ts) =
           detect_loop webcam skip
             (st'\<lparr>logged := logged st' @ [(ERROR, ''Error processing frame: {e}'')]\<rparr>) ts \<and>
         snd (detect cfg (InitRaises e0 ds) ticks) =
           Raised (if is_Exception e0 \<and> ds = BoundNone \<and> is_webcam (source cfg)
                   then AttributeError else e0)"
  using assms by (cases ds) (simp_all add: loop_body_def detect_def outer_handler_def Let_def)

theorem frame_exception_caught_witness:
  "acquire failing_tick = Got True True \<and>
   try_block 1 init_state failing_tick = (init_state\<lparr>processed_frames := 1\<rparr>, Some LibraryError) \<and>
   is_Exception LibraryError \<and>
   detect_loop False 1 init_state [failing_tick, overflow_tick 1000] =
     (\<lparr>last_global_alert_time = 1000, last_metadata_update_time = 1000, processed_frames = 2,
       alerts = [1000],
       logged = [(ERROR, ''Error processing frame: {e}''),
                 (WARNING, ''SYSTEM-WIDE OVERFLOW: Total count ({total_detections}) exceeds total threshold ({total_max_threshold}). Alerting.''),
                 (INFO, ''Frame {processed_frames} ...'')]\<rparr>, Running)"
proof -
  have a: "acquire failing_tick = Got True True" by (simp add: failing_tick_def overflow_tick_def)
  have b: "try_block 1 init_state failing_tick = (init_state\<lparr>processed_frames := 1\<rparr>, Some LibraryError)"
    by (simp add: try_block_def failing_tick_def overflow_tick_def init_state_def)
  have c: "is_Exception LibraryError" by simp
  show ?thesis
    using a b c frame_exception_caught[OF a b c, of False "[overflow_tick 1000]"] 
    by (simp add: loop_defs)
qed

lemma quit_key_raises:
  "frame_handler init_manager Map.empty ''roi_config.json'' 113 Written
     = ((init_manager, Map.empty), [], Some KeyboardInterrupt)"
  by (simp add: frame_handler_def init_manager_def)

text \<open>
  C5 as stated fails: the key handler of the standalone window raises
  \<open>KeyboardInterrupt\<close> on the key q, from inside the \<open>try\<close> block; no handler of
  \<open>detect\<close> catches it, the loop ends and the next frame is not processed.
\<close>

theorem quit_key_ends_detect:
  "snd (detect file_config InitOk [quit_tick, overflow_tick 1200]) = Raised KeyboardInterrupt \<and>
   processed_frames (fst (detect file_config InitOk [quit_tick, overflow_tick 1200])) = 1 \<and>
   alerts (fst (detect file_config InitOk [quit_tick, overflow_tick 1200])) = [1000]"
  using webcam_file
  by (simp add: loop_defs quit_tick_def quit_key_raises file_config_def)

section \<open>The Redis helpers\<close>

lemma get_client_none_logged:
  "get_redis_client g env = (g', l, Ok None) \<Longrightarrow> error_logged l"
  by (auto simp: get_redis_client_def connect_def error_logged_def split: option.splits reply.splits bool.splits redis_fault.splits)

lemma push_alert_result:
  "\<exists>g' l b. push_alert g env = (g', l, Ok b) \<and>
     (b \<longleftrightarrow> obtained g env \<and> succeeds (incr_reply env) \<and> succeeds (dumps_reply env) \<and> succeeds (rpush_reply env)) \<and>
     (\<not> b \<longrightarrow> error_logged l)"
proof -
  obtain g1 l1 r1 where c: "get_redis_client g env = (g1, l1, r1)"
    by (cases "get_redis_client g env") auto
  show ?thesis
  proof (cases r1)
    case (Fault f)
    with c show ?thesis
      by (auto simp: push_alert_def push_alert_body_def guarded_def obtained_def error_logged_def)
  next
    case (Ok co)
    show ?thesis
    proof (cases co)
      case None
      with Ok c get_client_none_logged[of g env g1 l1] show ?thesis
        by (auto simp: push_alert_def push_alert_body_def guarded_def obtained_def)
    next
      case (Some cl)
      with Ok c show ?thesis
        by (auto simp: push_alert_def push_alert_body_def guarded_def obtained_def
              error_logged_def succeeds_def andThen_def split: reply.splits)
    qed
  qed
qed

lemma update_crowd_count_result:
  "\<exists>g' l b. update_crowd_count g env = (g', l, Ok b) \<and>
     (b \<longleftrightarrow> obtained g env \<and> succeeds (dumps_reply env) \<and> succeeds (execute_reply env)) \<and>
     (\<not> b \<longrightarrow> error_logged l)"
proof -
  obtain g1 l1 r1 where c: "get_redis_client g env = (g1, l1, r1)"
    by (cases "get_redis_client g env") auto
  show ?thesis
  proof (cases r1)
    case (Fault f)
    with c show ?thesis
      by (auto simp: update_crowd_count_def update_crowd_count_body_def guarded_def obtained_def error_logged_def)
  next
    case (Ok co)
    show ?thesis
    proof (cases co)
      case None
      with Ok c get_client_none_logged[of g env g1 l1] show ?thesis
        by (auto simp: update_crowd_count_def update_crowd_count_body_def guarded_def obtained_def)
    next
      case (Some cl)
      with Ok c show ?thesis
        by (auto simp: update_crowd_count_def update_crowd_count_body_def guarded_def obtained_def
              error_logged_def succeeds_def andThen_def split: reply.splits)
    qed
  qed
qed

lemma insert_camera_data_result:
  "\<exists>g' l b. insert_camera_data g env = (g', l, Ok b) \<and>
     (b \<longleftrightarrow> obtained g env \<and> succeeds (dumps_reply env) \<and> succeeds (set_reply env)) \<and>
     (\<not> b \<longrightarrow> error_logged l)"
proof -
  obtain g1 l1 r1 where c: "get_redis_client g env = (g1, l1, r1)"
    by (cases "get_redis_client g env") auto
  show ?thesis
  proof (cases r1)
    case (Fault f)
    with c show ?thesis
      by (auto simp: insert_camera_data_def insert_camera_data_body_def guarded_def obtained_def error_logged_def)
  next
    case (Ok co)
    show ?thesis
    proof (cases co)
      case None
      with Ok c get_client_none_logged[of g env g1 l1] show ?thesis
        by (auto simp: insert_camera_data_def insert_camera_data_body_def guarded_def obtained_def)
    next
      case (Some cl)
      with Ok c show ?thesis
        by (auto simp: insert_camera_data_def insert_camera_data_body_def guarded_def obtained_def
              error_logged_def succeeds_def andThen_def split: reply.splits)
    qed
  qed
qed

text \<open>
  C10. \<open>push_alert\<close>, \<open>update_crowd_count\<close> and \<open>insert_camera_data\<close> return a
  boolean whatever the environment does and let no exception through: the result is
  \<open>True\<close> exactly when the client was obtained and every call made with it returned,
  and a result \<open>False\<close> comes with an error in the log.
\<close>

theorem redis_helpers_return:
  "(\<exists>g' l b. push_alert g env = (g', l, Ok b) \<and>
      (b \<longleftrightarrow> obtained g env \<and> succeeds (incr_reply env) \<and> succeeds (dumps_reply env) \<and>
             succeeds (rpush_reply env)) \<and>
      (\<not> b \<longrightarrow> error_logged l)) \<and>
   (\<exists>g' l b. update_crowd_count g env = (g', l, Ok b) \<and>
      (b \<longleftrightarrow> obtained g env \<and> succeeds (dumps_reply env) \<and> succeeds (execute_reply env)) \<and>
      (\<not> b \<longrightarrow> error_logged l)) \<and>
   (\<exists>g' l b. insert_camera_data g env = (g', l, Ok b) \<and>
      (b \<longleftrightarrow> obtained g env \<and> succeeds (dumps_reply env) \<and> succeeds (set_reply env)) \<and>
      (\<not> b \<longrightarrow> error_logged l))"
  using push_alert_result update_crowd_count_result insert_camera_data_result by blast

theorem redis_helpers_return_witness:
  "push_alert (Some Client) redis_down =
     (None, [(WARNING, ''Redis connection lost. Attempting to reconnect...''),
             (ERROR, ''Failed to connect to Redis at {config.REDIS_HOST}:{config.REDIS_PORT}: {e}'')],
      Ok False) \<and>
   \<not> obtained (Some Client) redis_down \<and>
   error_logged [(WARNING, ''Redis connection lost. Attempting to reconnect...''),
             (ERROR, ''Failed to connect to Redis at {config.REDIS_HOST}:{config.REDIS_PORT}: {e}'')]"
  using redis_helpers_return[of "Some Client" redis_down]
  by (simp add: push_alert_def push_alert_body_def guarded_def get_redis_client_def connect_def
        redis_down_def obtained_def error_logged_def)

end
